theory Spec2Isabelle
  imports Complex_Main "HOL-Library.FSet"
begin

section \<open>Data model of the music bot (ymain\_cache.py)\<close>

text \<open>
  Python integers (user ids, guild ids, queue numbers, volume percent) are \<open>int\<close>.
  A value read with \<open>dict.get\<close> is an \<open>option\<close>: \<open>None\<close> is Python's None.
  The module's dictionaries keyed by guild id are maps; a Python \<open>set\<close> of user ids is a
  finite set. The volume, a Python float, is a real number. Every \<open>ctx.send\<close> of a command
  is rendered as the outcome the function returns; a send guarded by \<open>try/except\<close> has no
  effect on the state whether it fails or not. A command is one step from state to state: what
  other coroutines do while it awaits is not part of it. Calls into the libraries that can
  raise where the code catches the exception (connecting, disconnecting, starting the sink,
  extracting) take a parameter that says whether they do.
\<close>

type_synonym user_id = int
type_synonym guild_id = int
type_synonym task = nat

text \<open>The song dictionary built by \<open>fetch_song\<close>; \<open>requester_id\<close> is absent until
  \<open>preload_song\<close> attaches it.\<close>

record song =
  title :: "string option"
  webpage_url :: "string option"
  audio_url :: "string option"
  duration :: "int option"
  thumbnail :: "string option"
  channel :: "string option"
  requester_id :: "user_id option"

text \<open>A member of a voice channel, as far as the code reads it: \<open>m.id\<close> and \<open>m.bot\<close>.\<close>

record member =
  member_id :: user_id
  member_bot :: bool

text \<open>The audio source handed to \<open>voice_client.play\<close>: a \<open>PCMVolumeTransformer\<close> around an
  \<open>FFmpegPCMAudio\<close> of a locator, with its volume; any other kind of source is \<open>OtherSource\<close>.\<close>

datatype audio_source = PCMVolumeTransformer string real | OtherSource

text \<open>The voice client of a guild: \<open>is_playing()\<close>, \<open>is_paused()\<close>, the attribute
  \<open>current_song\<close> (\<open>getattr(vc, "current_song", None)\<close>) and \<open>source\<close>.\<close>

record voice_client =
  vc_is_playing :: bool
  vc_is_paused :: bool
  current_song :: "song option"
  vc_source :: "audio_source option"

text \<open>The module-level state. \<open>voice_clients\<close> is \<open>ctx.voice_client\<close> per guild (absent when
  the bot is not connected there). Watchdog tasks are handles; \<open>cancelled_tasks\<close> records the
  handles on which \<open>cancel()\<close> was called and \<open>tasks_created\<close> numbers the next handle.\<close>

record bot_state =
  guild_queues :: "guild_id \<rightharpoonup> song list"
  guild_playing :: "guild_id \<rightharpoonup> bool"
  skip_votes :: "guild_id \<rightharpoonup> user_id fset"
  disconnect_tasks :: "guild_id \<rightharpoonup> task"
  audio_cache :: "string option \<rightharpoonup> string option"
  guild_volumes :: "guild_id \<rightharpoonup> real"
  voice_clients :: "guild_id \<rightharpoonup> voice_client"
  cancelled_tasks :: "task set"
  tasks_created :: nat

text \<open>The invocation context of a command: the guild, the author's id and role names, and
  the members of the voice channel the author is in (\<open>None\<close> when \<open>member.voice\<close> or its
  channel is missing).\<close>

record ctx =
  ctx_guild_id :: guild_id
  author_id :: user_id
  author_roles :: "string list"
  author_voice :: "member list option"

definition OG_ROLE_NAME :: string where
  "OG_ROLE_NAME = ''OG''"

text \<open>\<open>d.setdefault(k, v)\<close> and \<open>d.get(k, v)\<close>.\<close>

definition setdefault :: "('k \<rightharpoonup> 'v) \<Rightarrow> 'k \<Rightarrow> 'v \<Rightarrow> ('k \<rightharpoonup> 'v)" where
  "setdefault d k v = (case d k of None \<Rightarrow> d(k \<mapsto> v) | Some _ \<Rightarrow> d)"

definition get_default :: "('k \<rightharpoonup> 'v) \<Rightarrow> 'k \<Rightarrow> 'v \<Rightarrow> 'v" where
  "get_default d k v = (case d k of None \<Rightarrow> v | Some x \<Rightarrow> x)"

text \<open>Truth value of \<open>CREATOR_USER_ID\<close> in a condition: None and 0 are false.\<close>

definition truthy :: "int option \<Rightarrow> bool" where
  "truthy c = (case c of None \<Rightarrow> False | Some n \<Rightarrow> n \<noteq> 0)"

text \<open>\<open>voice_client.stop()\<close> of the library: the player is stopped and dropped, so nothing
  is playing or paused and no source is attached any more.\<close>

definition vc_stop :: "voice_client \<Rightarrow> voice_client" where
  "vc_stop vc = vc\<lparr>vc_is_playing := False, vc_is_paused := False, vc_source := None\<rparr>"

section \<open>The skip command\<close>

datatype skip_outcome =
    NothingCurrentlyPlaying
  | MustBeInVoiceChannel
  | SkippedRequesterOverride
  | SkippedOGOverride
  | SkipPassed nat nat
  | SkipVoteRegistered nat nat

text \<open>Line 326: \<open>votes_needed = max(1, len(vc_members) // 2)\<close>.\<close>

definition votes_needed :: "nat \<Rightarrow> nat" where
  "votes_needed n = max 1 (n div 2)"

definition non_bots :: "member list \<Rightarrow> member list" where
  "non_bots ms = filter (\<lambda>m. \<not> member_bot m) ms"

text \<open>The two statements \<open>voice_client.stop(); skip_votes[guild_id].clear()\<close>.\<close>

definition stop_and_clear :: "guild_id \<Rightarrow> voice_client \<Rightarrow> bot_state \<Rightarrow> bot_state" where
  "stop_and_clear gid vc s =
     s\<lparr>voice_clients := (voice_clients s)(gid \<mapsto> vc_stop vc),
       skip_votes := (skip_votes s)(gid \<mapsto> {||})\<rparr>"

definition is_requester :: "ctx \<Rightarrow> voice_client \<Rightarrow> bool" where
  "is_requester c vc =
     (case current_song vc of None \<Rightarrow> False
      | Some sg \<Rightarrow> Some (author_id c) = requester_id sg)"

definition skip :: "ctx \<Rightarrow> bot_state \<Rightarrow> skip_outcome \<times> bot_state" where
  "skip c s =
     (let gid = ctx_guild_id c in
      case voice_clients s gid of
        None \<Rightarrow> (NothingCurrentlyPlaying, s)
      | Some vc \<Rightarrow>
          if \<not> vc_is_playing vc then (NothingCurrentlyPlaying, s)
          else
            (case author_voice c of
               None \<Rightarrow> (MustBeInVoiceChannel, s)
             | Some members \<Rightarrow>
                 let s1 = s\<lparr>skip_votes := setdefault (skip_votes s) gid {||}\<rparr> in
                 if is_requester c vc then (SkippedRequesterOverride, stop_and_clear gid vc s1)
                 else if OG_ROLE_NAME \<in> set (author_roles c)
                 then (SkippedOGOverride, stop_and_clear gid vc s1)
                 else
                   let votes = finsert (author_id c) (get_default (skip_votes s1) gid {||});
                       s2 = s1\<lparr>skip_votes := (skip_votes s1)(gid \<mapsto> votes)\<rparr>;
                       vc_members = non_bots members;
                       current_votes = fcard votes
                   in if current_votes \<ge> votes_needed (length vc_members)
                      then (SkipPassed current_votes (length vc_members),
                            stop_and_clear gid vc s2)
                      else (SkipVoteRegistered current_votes (votes_needed (length vc_members)),
                            s2)))"

text \<open>What an observer reads of a guild: its queue and its votes, with the defaults the code
  uses when the key is missing.\<close>

definition queue_of :: "bot_state \<Rightarrow> guild_id \<Rightarrow> song list" where
  "queue_of s gid = get_default (guild_queues s) gid []"

definition votes_of :: "bot_state \<Rightarrow> guild_id \<Rightarrow> user_id fset" where
  "votes_of s gid = get_default (skip_votes s) gid {||}"

section \<open>Resolving a query: fetch\_song and preload\_song\<close>

text \<open>The dictionary returned by the extractor, as far as \<open>fetch_song\<close> reads it.
  \<open>info_thumbnails\<close> holds the \<open>url\<close> of each thumbnail; \<open>info_uploader\<close> is \<open>None\<close> when the
  key is absent and \<open>Some v\<close> when it is present with value \<open>v\<close>.\<close>

record info =
  info_title :: "string option"
  info_webpage_url :: "string option"
  info_url :: "string option"
  info_duration :: "int option"
  info_thumbnails :: "string option list option"
  info_uploader :: "string option option"

text \<open>What \<open>ydl.extract_info(query, download=False)\<close> can do: raise, return nothing (None or
  an empty dictionary), return one result, or return a search result with \<open>entries\<close>.\<close>

datatype extract_result =
    ExtractRaises
  | NoInfo
  | SingleInfo info
  | SearchEntries "info list"

datatype fetch_error = ExtractFailed | NoInfoReturned | EntriesIndexError

definition song_of_info :: "info \<Rightarrow> song" where
  "song_of_info i =
     \<lparr>title = info_title i,
      webpage_url = info_webpage_url i,
      audio_url = info_url i,
      duration = info_duration i,
      thumbnail = (case info_thumbnails i of
                     None \<Rightarrow> None
                   | Some [] \<Rightarrow> None
                   | Some (t # ts) \<Rightarrow> last (t # ts)),
      channel = (case info_uploader i of None \<Rightarrow> Some ''Unknown'' | Some u \<Rightarrow> u),
      requester_id = None\<rparr>"

definition fetch_song :: "(string \<Rightarrow> extract_result) \<Rightarrow> string \<Rightarrow> fetch_error + song" where
  "fetch_song ydl query =
     (case ydl query of
        ExtractRaises \<Rightarrow> Inl ExtractFailed
      | NoInfo \<Rightarrow> Inl NoInfoReturned
      | SingleInfo i \<Rightarrow> Inr (song_of_info i)
      | SearchEntries [] \<Rightarrow> Inl EntriesIndexError
      | SearchEntries (i # _) \<Rightarrow> Inr (song_of_info i))"

definition preload_song ::
  "(string \<Rightarrow> extract_result) \<Rightarrow> string \<Rightarrow> user_id \<Rightarrow> bot_state \<Rightarrow> fetch_error + (song \<times> bot_state)" where
  "preload_song ydl query rid s =
     (case fetch_song ydl query of
        Inl e \<Rightarrow> Inl e
      | Inr sg0 \<Rightarrow>
          let sg = sg0\<lparr>requester_id := Some rid\<rparr>
          in Inr (sg, s\<lparr>audio_cache := (audio_cache s)(webpage_url sg \<mapsto> audio_url sg)\<rparr>))"

section \<open>Playback: play\_next and play\<close>

datatype play_next_outcome =
    NothingToPlay
  | NoVoiceClient
  | SourceFailed song
  | PlayFailed song
  | NowPlaying song

text \<open>Line 190: \<open>audio_cache.get(song["webpage_url"], song["audio_url"])\<close>.\<close>

definition locator_for :: "bot_state \<Rightarrow> song \<Rightarrow> string option" where
  "locator_for s sg = get_default (audio_cache s) (webpage_url sg) (audio_url sg)"

text \<open>Lines 204 to 210: cancel the guild's watchdog task if there is one, then store a new one.\<close>

definition rearm :: "guild_id \<Rightarrow> bot_state \<Rightarrow> bot_state" where
  "rearm gid s =
     s\<lparr>cancelled_tasks := (case disconnect_tasks s gid of
                              None \<Rightarrow> cancelled_tasks s
                            | Some t \<Rightarrow> insert t (cancelled_tasks s)),
       disconnect_tasks := (disconnect_tasks s)(gid \<mapsto> tasks_created s),
       tasks_created := Suc (tasks_created s)\<rparr>"

text \<open>One run of \<open>play_next\<close>.

  Line 192 builds \<open>discord.FFmpegPCMAudio(audio_url, ...)\<close> outside every \<open>try\<close>: it raises
  when the locator is None, and when \<open>source_raises\<close> says so (no ffmpeg to run). The exception
  leaves \<open>play_next\<close> where it stands (outcome \<open>SourceFailed\<close>): the track is popped, the guild
  is marked as playing, nothing has been started, no further run is scheduled and the watchdog
  is not re-armed.

  Line 197, \<open>voice_client.play\<close>, is inside a \<open>try\<close>: the library raises when the client is
  already playing, and \<open>play_raises\<close> says whether it raises for another reason. The code
  catches that and schedules a further run (outcome \<open>PlayFailed\<close>), as it does when a track
  that was started ends.\<close>

definition play_next ::
  "bool \<Rightarrow> bool \<Rightarrow> ctx \<Rightarrow> bot_state \<Rightarrow> play_next_outcome \<times> bot_state" where
  "play_next source_raises play_raises c s =
     (let gid = ctx_guild_id c in
      case get_default (guild_queues s) gid [] of
        [] \<Rightarrow> (NothingToPlay, s\<lparr>guild_playing := (guild_playing s)(gid \<mapsto> False)\<rparr>)
      | sg # rest \<Rightarrow>
          let s1 = s\<lparr>guild_queues := (guild_queues s)(gid \<mapsto> rest)\<rparr> in
          (case voice_clients s1 gid of
             None \<Rightarrow> (NoVoiceClient, s1\<lparr>guild_playing := (guild_playing s1)(gid \<mapsto> False)\<rparr>)
           | Some vc \<Rightarrow>
               let vc1 = vc\<lparr>current_song := Some sg\<rparr>;
                   s2 = s1\<lparr>guild_playing := (guild_playing s1)(gid \<mapsto> True),
                          voice_clients := (voice_clients s1)(gid \<mapsto> vc1)\<rparr>
               in (case locator_for s2 sg of
                     None \<Rightarrow> (SourceFailed sg, s2)
                   | Some loc \<Rightarrow>
                       if source_raises then (SourceFailed sg, s2)
                       else
                         let source = PCMVolumeTransformer loc
                                        (get_default (guild_volumes s2) gid 1)
                         in if play_raises \<or> vc_is_playing vc1 then (PlayFailed sg, s2)
                            else
                              let vc2 = vc1\<lparr>vc_is_playing := True, vc_is_paused := False,
                                            vc_source := Some source\<rparr>
                              in (NowPlaying sg,
                                  rearm gid
                                    (s2\<lparr>voice_clients :=
                                          (voice_clients s2)(gid \<mapsto> vc2)\<rparr>)))))"

datatype play_outcome =
    CouldNotConnect
  | MustBeInVoiceToPlay
  | ErrorLoadingTrack fetch_error
  | AddedToQueue song "play_next_outcome option"

text \<open>The voice client that \<open>channel.connect()\<close> creates.\<close>

definition new_voice_client :: voice_client where
  "new_voice_client =
     \<lparr>vc_is_playing = False, vc_is_paused = False, current_song = None, vc_source = None\<rparr>"

text \<open>Lines 248 to 258: make sure the bot is connected; the error is the command's reply.\<close>

definition ensure_connected :: "bool \<Rightarrow> ctx \<Rightarrow> bot_state \<Rightarrow> play_outcome + bot_state" where
  "ensure_connected connect_raises c s =
     (let gid = ctx_guild_id c in
      case voice_clients s gid of
        Some _ \<Rightarrow> Inr s
      | None \<Rightarrow>
          (case author_voice c of
             Some _ \<Rightarrow>
               if connect_raises then Inl CouldNotConnect
               else Inr (s\<lparr>voice_clients := (voice_clients s)(gid \<mapsto> new_voice_client)\<rparr>)
           | None \<Rightarrow> Inl MustBeInVoiceToPlay))"

text \<open>The play command. \<open>ydl\<close> is the extractor, \<open>connect_raises\<close> says whether connecting
  raises, \<open>source_raises\<close> and \<open>play_raises\<close> are those of \<open>play_next\<close>; an exception that
  leaves \<open>play_next\<close> at line 192 leaves \<open>play\<close> too, with the track already appended. After the three \<open>setdefault\<close> calls the
  guild's keys exist, so \<open>guild_queues[guild_id]\<close> and \<open>guild_playing[guild_id]\<close> find them.\<close>

definition play ::
  "(string \<Rightarrow> extract_result) \<Rightarrow> bool \<Rightarrow> bool \<Rightarrow> bool \<Rightarrow> ctx \<Rightarrow> string \<Rightarrow> bot_state
     \<Rightarrow> play_outcome \<times> bot_state" where
  "play ydl connect_raises source_raises play_raises c query s =
     (let gid = ctx_guild_id c;
          s0 = s\<lparr>guild_queues := setdefault (guild_queues s) gid [],
                 guild_playing := setdefault (guild_playing s) gid False,
                 guild_volumes := setdefault (guild_volumes s) gid 1\<rparr>
      in case ensure_connected connect_raises c s0 of
           Inl e \<Rightarrow> (e, s0)
         | Inr s1 \<Rightarrow>
             (case preload_song ydl query (author_id c) s1 of
                Inl e \<Rightarrow> (ErrorLoadingTrack e, s1)
              | Inr (sg, s2) \<Rightarrow>
                  let s3 = s2\<lparr>guild_queues :=
                              (guild_queues s2)(gid \<mapsto> get_default (guild_queues s2) gid [] @ [sg])\<rparr>
                  in if \<not> get_default (guild_playing s3) gid False
                     then (let (r, s4) = play_next source_raises play_raises c s3
                           in (AddedToQueue sg (Some r), s4))
                     else (AddedToQueue sg None, s3)))"

section \<open>The stop, remove and volume commands\<close>

datatype stop_outcome =
    OnlyCreatorMayStop
  | StoppedAndDisconnected
  | NotConnected

text \<open>Lines 356 to 361: cancel and forget the guild's watchdog task.\<close>

definition cancel_watchdog :: "guild_id \<Rightarrow> bot_state \<Rightarrow> bot_state" where
  "cancel_watchdog gid s =
     (case disconnect_tasks s gid of
        None \<Rightarrow> s
      | Some t \<Rightarrow> s\<lparr>cancelled_tasks := insert t (cancelled_tasks s),
                     disconnect_tasks := (disconnect_tasks s)(gid := None)\<rparr>)"

text \<open>\<open>await voice_client.disconnect()\<close> inside \<open>try/except\<close>: when it raises the connection
  is left as it was.\<close>

definition disconnect :: "bool \<Rightarrow> guild_id \<Rightarrow> bot_state \<Rightarrow> bot_state" where
  "disconnect disconnect_raises gid s =
     (if disconnect_raises then s
      else s\<lparr>voice_clients := (voice_clients s)(gid := None)\<rparr>)"

definition stop :: "int option \<Rightarrow> bool \<Rightarrow> ctx \<Rightarrow> bot_state \<Rightarrow> stop_outcome \<times> bot_state" where
  "stop CREATOR_USER_ID disconnect_raises c s =
     (if truthy CREATOR_USER_ID \<and> Some (author_id c) \<noteq> CREATOR_USER_ID
      then (OnlyCreatorMayStop, s)
      else
        let gid = ctx_guild_id c in
        (case voice_clients s gid of
           Some _ \<Rightarrow>
             (StoppedAndDisconnected,
              cancel_watchdog gid
                (disconnect disconnect_raises gid
                   (s\<lparr>guild_queues := (guild_queues s)(gid \<mapsto> []),
                      guild_playing := (guild_playing s)(gid \<mapsto> False)\<rparr>)))
         | None \<Rightarrow> (NotConnected, cancel_watchdog gid s)))"

datatype remove_outcome =
    QueueIsEmpty
  | InvalidQueueNumber int
  | OnlyRequesterOrCreatorMayRemove
  | Removed song
  | CouldNotFindTrack

definition remove :: "int option \<Rightarrow> ctx \<Rightarrow> int \<Rightarrow> bot_state \<Rightarrow> remove_outcome \<times> bot_state" where
  "remove CREATOR_USER_ID c queue_no s =
     (let gid = ctx_guild_id c;
          queue = get_default (guild_queues s) gid []
      in if queue = [] then (QueueIsEmpty, s)
         else
           let total_len = int (length queue) + 1 in
           if queue_no < 2 \<or> queue_no > total_len then (InvalidQueueNumber total_len, s)
           else
             let sg = queue ! nat (queue_no - 2);
                 allowed = (Some (author_id c) = requester_id sg
                            \<or> (truthy CREATOR_USER_ID \<and> Some (author_id c) = CREATOR_USER_ID))
             in if \<not> allowed then (OnlyRequesterOrCreatorMayRemove, s)
                else if sg \<in> set queue
                then (Removed sg, s\<lparr>guild_queues := (guild_queues s)(gid \<mapsto> remove1 sg queue)\<rparr>)
                else (CouldNotFindTrack, s))"

datatype volume_outcome =
    VolumeNothingPlaying
  | VolumeMustBeBetween
  | VolumeSet int

definition volume :: "ctx \<Rightarrow> int \<Rightarrow> bot_state \<Rightarrow> volume_outcome \<times> bot_state" where
  "volume c vol s =
     (let gid = ctx_guild_id c in
      case voice_clients s gid of
        None \<Rightarrow> (VolumeNothingPlaying, s)
      | Some vc \<Rightarrow>
          if current_song vc = None then (VolumeNothingPlaying, s)
          else if vol < 0 \<or> vol > 200 then (VolumeMustBeBetween, s)
          else
            let s1 = s\<lparr>guild_volumes := (guild_volumes s)(gid \<mapsto> real_of_int vol / 100)\<rparr> in
            (VolumeSet vol,
             case vc_source vc of
               Some (PCMVolumeTransformer loc _) \<Rightarrow>
                 s1\<lparr>voice_clients := (voice_clients s1)
                      (gid \<mapsto> vc\<lparr>vc_source :=
                                    Some (PCMVolumeTransformer loc (real_of_int vol / 100))\<rparr>)\<rparr>
             | _ \<Rightarrow> s1))"

section \<open>The idle watchdog: auto\_disconnect\<close>

text \<open>What the watchdog sees when it wakes up for one pass of its loop: the members of the
  voice client's channel, \<open>voice_client.is_playing()\<close>, the module state at that moment (other
  commands run while it sleeps), and whether \<open>disconnect()\<close> would raise.\<close>

record tick =
  tick_members :: "member list"
  tick_is_playing :: bool
  tick_state :: bot_state
  tick_disconnect_raises :: bool

datatype watchdog_outcome =
    WatchdogNotStarted
  | StillPolling nat
  | TornDown bot_state

definition check_interval :: nat where
  "check_interval = 5"

text \<open>Line 118: a member that is not a bot, or a playing sink, or a queued track.\<close>

definition active :: "guild_id \<Rightarrow> tick \<Rightarrow> bool" where
  "active gid t =
     (non_bots (tick_members t) \<noteq> [] \<or> tick_is_playing t
      \<or> get_default (guild_queues (tick_state t)) gid [] \<noteq> [])"

text \<open>Lines 118 to 121.\<close>

definition next_idle :: "guild_id \<Rightarrow> nat \<Rightarrow> tick \<Rightarrow> nat" where
  "next_idle gid idle_seconds t = (if active gid t then 0 else idle_seconds + check_interval)"

text \<open>Lines 124 to 136.\<close>

definition teardown :: "guild_id \<Rightarrow> tick \<Rightarrow> bot_state" where
  "teardown gid t =
     (let s = disconnect (tick_disconnect_raises t) gid (tick_state t)
      in s\<lparr>guild_playing := (guild_playing s)(gid \<mapsto> False),
           guild_queues := (guild_queues s)(gid \<mapsto> []),
           skip_votes := (skip_votes s)(gid \<mapsto> {||}),
           disconnect_tasks := (disconnect_tasks s)(gid := None)\<rparr>)"

text \<open>The \<open>while True\<close> loop, one pass per tick. It leaves the loop only by tearing down; when
  the ticks run out the watchdog is asleep with the idle time it has accumulated (or has been
  cancelled in its sleep).\<close>

fun auto_disconnect_loop :: "guild_id \<Rightarrow> nat \<Rightarrow> tick list \<Rightarrow> watchdog_outcome" where
  "auto_disconnect_loop gid idle_seconds [] = StillPolling idle_seconds"
| "auto_disconnect_loop gid idle_seconds (t # ts) =
     (let idle' = next_idle gid idle_seconds t
      in if idle' \<ge> 180 then TornDown (teardown gid t)
         else auto_disconnect_loop gid idle' ts)"

definition auto_disconnect :: "ctx \<Rightarrow> bot_state \<Rightarrow> tick list \<Rightarrow> watchdog_outcome" where
  "auto_disconnect c s ticks =
     (case voice_clients s (ctx_guild_id c) of
        None \<Rightarrow> WatchdogNotStarted
      | Some _ \<Rightarrow> auto_disconnect_loop (ctx_guild_id c) 0 ticks)"

text \<open>The length of the run of inactive ticks that ends a list of ticks.\<close>

definition idle_run :: "guild_id \<Rightarrow> tick list \<Rightarrow> nat" where
  "idle_run gid ts = length (takeWhile (\<lambda>t. \<not> active gid t) (rev ts))"

section \<open>Concrete sessions\<close>

text \<open>Guild 1 with the bot connected and playing track A, requested by user 1; callers with
  no role, in a voice channel with the given human members.\<close>

definition track_A :: song where
  "track_A =
     \<lparr>title = Some ''A'', webpage_url = Some ''https://example.org/a'',
      audio_url = Some ''https://cdn.example.org/a'', duration = Some 200,
      thumbnail = None, channel = Some ''Unknown'', requester_id = Some 1\<rparr>"

definition track_B :: song where
  "track_B =
     \<lparr>title = Some ''B'', webpage_url = Some ''https://example.org/b'',
      audio_url = Some ''https://cdn.example.org/b'', duration = Some 100,
      thumbnail = None, channel = Some ''Unknown'', requester_id = Some 1\<rparr>"

definition playing_A :: voice_client where
  "playing_A =
     \<lparr>vc_is_playing = True, vc_is_paused = False, current_song = Some track_A,
      vc_source = Some (PCMVolumeTransformer ''https://cdn.example.org/a'' 1)\<rparr>"

definition empty_state :: bot_state where
  "empty_state =
     \<lparr>guild_queues = Map.empty, guild_playing = Map.empty, skip_votes = Map.empty,
      disconnect_tasks = Map.empty, audio_cache = Map.empty, guild_volumes = Map.empty,
      voice_clients = Map.empty, cancelled_tasks = {}, tasks_created = 0\<rparr>"

definition session_A :: "song list \<Rightarrow> user_id fset \<Rightarrow> bot_state" where
  "session_A q votes =
     empty_state\<lparr>guild_queues := [1 \<mapsto> q], guild_playing := [1 \<mapsto> True],
                 skip_votes := [1 \<mapsto> votes], guild_volumes := [1 \<mapsto> 1],
                 voice_clients := [1 \<mapsto> playing_A]\<rparr>"

text \<open>The same guild after track A has ended by itself: the client is idle and still carries
  A as its current song.\<close>

definition ended_A :: voice_client where
  "ended_A = playing_A\<lparr>vc_is_playing := False\<rparr>"

definition session_after_A :: "song list \<Rightarrow> user_id fset \<Rightarrow> bot_state" where
  "session_after_A q votes = (session_A q votes)\<lparr>voice_clients := [1 \<mapsto> ended_A]\<rparr>"

definition humans :: "user_id list \<Rightarrow> member list" where
  "humans ids = map (\<lambda>i. \<lparr>member_id = i, member_bot = False\<rparr>) ids"

definition caller :: "user_id \<Rightarrow> user_id list \<Rightarrow> ctx" where
  "caller u present =
     \<lparr>ctx_guild_id = 1, author_id = u, author_roles = [], author_voice = Some (humans present)\<rparr>"

text \<open>An extractor that finds nothing for one query and raises for every other, and one that
  answers every query with a search result whose first entry is track B at a fresh locator.\<close>

definition failing_ydl :: "string \<Rightarrow> extract_result" where
  "failing_ydl query = (if query = ''nothing'' then NoInfo else ExtractRaises)"

definition ydl_B :: "string \<Rightarrow> extract_result" where
  "ydl_B query =
     SearchEntries
       [\<lparr>info_title = Some ''B'', info_webpage_url = Some ''https://example.org/b'',
         info_url = Some ''https://cdn.example.org/b2'', info_duration = Some 100,
         info_thumbnails = None, info_uploader = None\<rparr>]"

text \<open>The idle session with track B queued and a cache entry for B's page that differs from
  the locator stored in the queued track: an older one in \<open>stale_B\<close>, the one that \<open>ydl_B\<close>
  resolves in \<open>cached_B\<close>.\<close>

definition stale_B :: bot_state where
  "stale_B =
     (session_after_A [track_B] {||})
       \<lparr>audio_cache := [Some ''https://example.org/b'' \<mapsto> Some ''https://cdn.example.org/b0'']\<rparr>"

definition cached_B :: bot_state where
  "cached_B =
     (session_after_A [track_B] {||})
       \<lparr>audio_cache := [Some ''https://example.org/b'' \<mapsto> Some ''https://cdn.example.org/b2'']\<rparr>"

text \<open>Two ticks of the watchdog of guild 1: one with only a bot in the channel, nothing
  playing and an empty queue, and one with user 1 in the channel.\<close>

definition quiet_tick :: tick where
  "quiet_tick =
     \<lparr>tick_members = [\<lparr>member_id = 99, member_bot = True\<rparr>], tick_is_playing = False,
      tick_state = session_A [] {|2|}, tick_disconnect_raises = False\<rparr>"

definition busy_tick :: tick where
  "busy_tick =
     \<lparr>tick_members = humans [1], tick_is_playing = False,
      tick_state = session_A [] {|2|}, tick_disconnect_raises = False\<rparr>"

lemmas ex_defs =
  track_A_def track_B_def playing_A_def empty_state_def session_A_def humans_def caller_def
  ended_A_def session_after_A_def

section \<open>The skip vote (claims C1, C2, C8)\<close>

lemma votes_needed_examples:
  "votes_needed 1 = 1" "votes_needed 4 = 2" "votes_needed 5 = 2" "votes_needed 3 = 1"
  by (simp_all add: votes_needed_def)

lemma skip_on_vote_path:
  assumes "voice_clients s (ctx_guild_id c) = Some vc" "vc_is_playing vc"
    "author_voice c = Some members" "\<not> is_requester c vc"
    "OG_ROLE_NAME \<notin> set (author_roles c)"
  shows "skip c s =
     (let gid = ctx_guild_id c;
          votes = finsert (author_id c) (votes_of s gid);
          n = length (non_bots members);
          s2 = s\<lparr>skip_votes := (skip_votes s)(gid \<mapsto> votes)\<rparr>
      in if votes_needed n \<le> fcard votes
         then (SkipPassed (fcard votes) n, stop_and_clear gid vc s2)
         else (SkipVoteRegistered (fcard votes) (votes_needed n), s2))"
  using assms
  by (auto simp: skip_def Let_def votes_of_def get_default_def setdefault_def stop_and_clear_def
      split: option.splits)

text \<open>
  Claim C1, as the code has it. On the vote path of \<open>skip\<close> (a voice client that is playing,
  the caller in a voice channel, the caller not the requester of the current song and without
  the OG role) the votes needed are \<open>max 1 (n div 2)\<close> for \<open>n\<close> members of the caller's channel
  that are not bots. The caller is added to the guild's vote set; the skip passes, stopping the
  voice client and clearing the votes, exactly when the number of distinct voters reaches that
  threshold, and otherwise the vote is registered and the voice client is left as it was.
  One member needs 1 vote, four need 2, five need 2, and three need 1.
\<close>

theorem skip_vote_path:
  assumes "voice_clients s (ctx_guild_id c) = Some vc" "vc_is_playing vc"
    "author_voice c = Some members" "\<not> is_requester c vc"
    "OG_ROLE_NAME \<notin> set (author_roles c)"
    "votes = finsert (author_id c) (votes_of s (ctx_guild_id c))"
    "n = length (non_bots members)"
  shows "votes_needed n = max 1 (n div 2)
     \<and> (votes_needed n \<le> fcard votes \<longrightarrow>
          fst (skip c s) = SkipPassed (fcard votes) n
          \<and> voice_clients (snd (skip c s)) (ctx_guild_id c) = Some (vc_stop vc)
          \<and> \<not> vc_is_playing (vc_stop vc)
          \<and> votes_of (snd (skip c s)) (ctx_guild_id c) = {||})
     \<and> (fcard votes < votes_needed n \<longrightarrow>
          fst (skip c s) = SkipVoteRegistered (fcard votes) (votes_needed n)
          \<and> voice_clients (snd (skip c s)) (ctx_guild_id c) = Some vc
          \<and> votes_of (snd (skip c s)) (ctx_guild_id c) = votes)
     \<and> votes_needed 1 = 1 \<and> votes_needed 4 = 2 \<and> votes_needed 5 = 2 \<and> votes_needed 3 = 1"
  using assms(1) unfolding skip_on_vote_path[OF assms(1-5)] assms(6,7)
  by (auto simp: Let_def votes_needed_examples votes_of_def get_default_def stop_and_clear_def
      vc_stop_def votes_needed_def)

text \<open>The scenario of the specification: with four members present the first vote is
  registered as 1 of 2 and the second distinct vote passes.\<close>

theorem skip_vote_path_witness:
  "fst (skip (caller 2 [1, 2, 3, 4]) (session_A [] {||})) = SkipVoteRegistered 1 2
   \<and> votes_of (snd (skip (caller 2 [1, 2, 3, 4]) (session_A [] {||}))) 1 = {|2|}
   \<and> fst (skip (caller 3 [1, 2, 3, 4]) (session_A [] {|2|})) = SkipPassed 2 4
   \<and> votes_of (snd (skip (caller 3 [1, 2, 3, 4]) (session_A [] {|2|}))) 1 = {||}"
  using skip_vote_path[of "session_A [] {||}" "caller 2 [1, 2, 3, 4]" playing_A "humans [1, 2, 3, 4]"
      "{|2|}" 4]
    skip_vote_path[of "session_A [] {|2|}" "caller 3 [1, 2, 3, 4]" playing_A "humans [1, 2, 3, 4]"
      "{|3, 2|}" 4]
  by (simp add: ex_defs is_requester_def OG_ROLE_NAME_def votes_of_def get_default_def
      non_bots_def votes_needed_def fcard_finsert_if)

text \<open>With three members present a single vote passes the skip: the threshold is 1, not 2.\<close>

theorem skip_three_members_counterexample:
  "fst (skip (caller 2 [1, 2, 3]) (session_A [] {||})) = SkipPassed 1 3
   \<and> votes_needed 3 \<noteq> 2"
  by (simp add: skip_def ex_defs is_requester_def OG_ROLE_NAME_def get_default_def setdefault_def
      non_bots_def votes_needed_def fcard_finsert_if Let_def)

lemma skip_requester_eq:
  assumes "voice_clients s (ctx_guild_id c) = Some vc" "vc_is_playing vc"
    "author_voice c = Some members" "is_requester c vc"
  shows "skip c s =
     (SkippedRequesterOverride,
      stop_and_clear (ctx_guild_id c) vc
        (s\<lparr>skip_votes := setdefault (skip_votes s) (ctx_guild_id c) {||}\<rparr>))"
  using assms by (simp add: skip_def Let_def)

lemma stop_and_clear_votes: "skip_votes (stop_and_clear gid vc s) gid = Some {||}"
  by (simp add: stop_and_clear_def)

lemma stop_and_clear_voice: "voice_clients (stop_and_clear gid vc s) gid = Some (vc_stop vc)"
  by (simp add: stop_and_clear_def)

text \<open>
  Claim C8. When the voice client is playing, the caller is in a voice channel and is the
  requester of the current song, \<open>skip\<close> resolves as the requester override whatever the votes
  registered so far and whatever the members present: the voice client is stopped and the
  guild's vote set is cleared.
\<close>

theorem skip_requester_override:
  assumes "voice_clients s (ctx_guild_id c) = Some vc" "vc_is_playing vc"
    "author_voice c = Some members"
    "current_song vc = Some sg" "requester_id sg = Some (author_id c)"
  shows "fst (skip c s) = SkippedRequesterOverride
     \<and> voice_clients (snd (skip c s)) (ctx_guild_id c) = Some (vc_stop vc)
     \<and> \<not> vc_is_playing (vc_stop vc)
     \<and> skip_votes (snd (skip c s)) (ctx_guild_id c) = Some {||}
     \<and> votes_of (snd (skip c s)) (ctx_guild_id c) = {||}"
proof -
  have "is_requester c vc"
    using assms(4,5) by (simp add: is_requester_def)
  from skip_requester_eq[OF assms(1-3) this] show ?thesis
    by (simp add: stop_and_clear_votes stop_and_clear_voice votes_of_def get_default_def
        vc_stop_def)
qed

text \<open>User 1 requested track A and skips it with one vote registered and five members present.\<close>

theorem skip_requester_override_witness:
  "fst (skip (caller 1 [1, 2, 3, 4, 5]) (session_A [track_B] {|2|})) = SkippedRequesterOverride
   \<and> votes_of (snd (skip (caller 1 [1, 2, 3, 4, 5]) (session_A [track_B] {|2|}))) 1 = {||}
   \<and> voice_clients (snd (skip (caller 1 [1, 2, 3, 4, 5]) (session_A [track_B] {|2|}))) 1
       = Some (vc_stop playing_A)"
  using skip_requester_override[of "session_A [track_B] {|2|}" "caller 1 [1, 2, 3, 4, 5]"
      playing_A "humans [1, 2, 3, 4, 5]" track_A]
  by (simp add: ex_defs)






section \<open>Authorization of stop (claim C4)\<close>

lemma stop_refused_iff:
  "fst (stop cr dr c s) = OnlyCreatorMayStop \<longleftrightarrow> truthy cr \<and> Some (author_id c) \<noteq> cr"
  by (simp add: stop_def Let_def split: option.splits)

text \<open>
  Claim C4, as the code has it. When \<open>CREATOR_USER_ID\<close> is set to a non-zero integer, \<open>stop\<close>
  is refused for every caller but that user, and the refusal leaves the whole state as it was;
  it is not refused for that user. When \<open>CREATOR_USER_ID\<close> is None or 0 the check is skipped and
  \<open>stop\<close> is refused for nobody.
\<close>

theorem stop_creator_only:
  "(truthy cr \<and> Some (author_id c) \<noteq> cr \<longrightarrow> stop cr dr c s = (OnlyCreatorMayStop, s))
   \<and> (truthy cr \<longrightarrow>
        (fst (stop cr dr c s) \<noteq> OnlyCreatorMayStop \<longleftrightarrow> Some (author_id c) = cr))
   \<and> (\<not> truthy cr \<longrightarrow> fst (stop cr dr c s) \<noteq> OnlyCreatorMayStop)
   \<and> (truthy cr \<longleftrightarrow> (\<exists>n. cr = Some n \<and> n \<noteq> 0))"
  by (auto simp: stop_refused_iff) (auto simp: stop_def truthy_def split: option.splits)

text \<open>With creator 9, user 2 is refused and user 9 stops the session.\<close>

theorem stop_creator_only_witness:
  "stop (Some 9) False (caller 2 [1, 2]) (session_A [track_B] {||})
     = (OnlyCreatorMayStop, session_A [track_B] {||})
   \<and> fst (stop (Some 9) False (caller 9 [1, 2]) (session_A [track_B] {||})) = StoppedAndDisconnected"
  using stop_creator_only[of "Some 9" "caller 2 [1, 2]" False "session_A [track_B] {||}"]
    stop_creator_only[of "Some 9" "caller 9 [1, 2]" False "session_A [track_B] {||}"]
  by (simp add: truthy_def caller_def)
     (simp add: stop_def truthy_def ex_defs Let_def)

text \<open>With no creator configured, user 2 stops the session: the queue is cleared and the bot
  disconnects.\<close>

theorem stop_without_creator_counterexample:
  "fst (stop None False (caller 2 [1, 2]) (session_A [track_B] {||})) = StoppedAndDisconnected
   \<and> queue_of (session_A [track_B] {||}) 1 = [track_B]
   \<and> queue_of (snd (stop None False (caller 2 [1, 2]) (session_A [track_B] {||}))) 1 = []
   \<and> voice_clients (snd (stop None False (caller 2 [1, 2]) (session_A [track_B] {||}))) 1 = None
   \<and> guild_playing (snd (stop None False (caller 2 [1, 2]) (session_A [track_B] {||}))) 1 = Some False"
  by (simp add: stop_def truthy_def ex_defs Let_def queue_of_def get_default_def disconnect_def
      cancel_watchdog_def)

section \<open>Positions of remove (claim C5)\<close>

lemma remove1_nth_first:
  assumes "i < length q" "q ! i \<notin> set (take i q)"
  shows "remove1 (q ! i) q = take i q @ drop (Suc i) q"
proof -
  have "q = take i q @ q ! i # drop (Suc i) q"
    using assms(1) by (simp add: id_take_nth_drop)
  then have "remove1 (q ! i) q = remove1 (q ! i) (take i q @ q ! i # drop (Suc i) q)"
    by simp
  also have "\<dots> = take i q @ remove1 (q ! i) (q ! i # drop (Suc i) q)"
    using assms(2) by (simp only: remove1_append if_False)
  finally show ?thesis by simp
qed

lemma remove_on_empty:
  "queue_of s (ctx_guild_id c) = [] \<Longrightarrow> remove cr c p s = (QueueIsEmpty, s)"
  by (simp add: remove_def queue_of_def Let_def)

lemma remove_invalid:
  assumes "queue_of s (ctx_guild_id c) = q" "q \<noteq> []" "p < 2 \<or> p > int (length q) + 1"
  shows "remove cr c p s = (InvalidQueueNumber (int (length q) + 1), s)"
  using assms by (auto simp: remove_def queue_of_def Let_def)

lemma remove_in_range:
  assumes "queue_of s (ctx_guild_id c) = q" "2 \<le> p" "p \<le> int (length q) + 1"
  shows "remove cr c p s =
        (if Some (author_id c) = requester_id (q ! nat (p - 2))
            \<or> (truthy cr \<and> Some (author_id c) = cr)
         then (Removed (q ! nat (p - 2)),
               s\<lparr>guild_queues :=
                   (guild_queues s)(ctx_guild_id c \<mapsto> remove1 (q ! nat (p - 2)) q)\<rparr>)
         else (OnlyRequesterOrCreatorMayRemove, s))"
proof -
  have i: "nat (p - 2) < length q" using assms(2,3) by linarith
  then have "q ! nat (p - 2) \<in> set q" "q \<noteq> []" by auto
  then show ?thesis
    using assms by (simp add: remove_def queue_of_def Let_def)
qed

text \<open>
  Claim C5, as the code has it. On an empty queue \<open>remove\<close> answers that the queue is empty,
  for every position. On a queue of \<open>N > 0\<close> tracks, position 1 and every position below 2 or
  above \<open>N + 1\<close> is answered with the invalid-number reply and nothing changes. For a position
  \<open>p\<close> from 2 to \<open>N + 1\<close> the track looked at is \<open>queue[p - 2]\<close>: the caller must be its requester
  or the configured creator, and then it is the track reported as removed; when no equal track
  is queued before it, the new queue is the old one without index \<open>p - 2\<close>.
\<close>

theorem remove_positions:
  assumes "queue_of s (ctx_guild_id c) = q"
  shows "(q = [] \<longrightarrow> remove cr c p s = (QueueIsEmpty, s))
     \<and> (q \<noteq> [] \<longrightarrow>
          (p < 2 \<or> p > int (length q) + 1 \<longrightarrow>
             remove cr c p s = (InvalidQueueNumber (int (length q) + 1), s))
          \<and> remove cr c 1 s = (InvalidQueueNumber (int (length q) + 1), s))
     \<and> (2 \<le> p \<and> p \<le> int (length q) + 1 \<longrightarrow>
          (Some (author_id c) \<noteq> requester_id (q ! nat (p - 2))
             \<and> \<not> (truthy cr \<and> Some (author_id c) = cr) \<longrightarrow>
             remove cr c p s = (OnlyRequesterOrCreatorMayRemove, s))
          \<and> (Some (author_id c) = requester_id (q ! nat (p - 2))
             \<or> (truthy cr \<and> Some (author_id c) = cr) \<longrightarrow>
             fst (remove cr c p s) = Removed (q ! nat (p - 2))
             \<and> (q ! nat (p - 2) \<notin> set (take (nat (p - 2)) q) \<longrightarrow>
                  queue_of (snd (remove cr c p s)) (ctx_guild_id c)
                    = take (nat (p - 2)) q @ drop (Suc (nat (p - 2))) q)))"
proof (intro conjI impI)
  assume "q = []"
  then show "remove cr c p s = (QueueIsEmpty, s)"
    using assms remove_on_empty by simp
next
  assume "q \<noteq> []" "p < 2 \<or> p > int (length q) + 1"
  then show "remove cr c p s = (InvalidQueueNumber (int (length q) + 1), s)"
    using remove_invalid[OF assms] by simp
next
  assume "q \<noteq> []"
  then show "remove cr c 1 s = (InvalidQueueNumber (int (length q) + 1), s)"
    using remove_invalid[OF assms, of 1] by simp
next
  assume r: "2 \<le> p \<and> p \<le> int (length q) + 1"
    and "Some (author_id c) \<noteq> requester_id (q ! nat (p - 2))
          \<and> \<not> (truthy cr \<and> Some (author_id c) = cr)"
  then show "remove cr c p s = (OnlyRequesterOrCreatorMayRemove, s)"
    using remove_in_range[OF assms, of p cr] by simp
next
  assume r: "2 \<le> p \<and> p \<le> int (length q) + 1"
    and a: "Some (author_id c) = requester_id (q ! nat (p - 2))
          \<or> (truthy cr \<and> Some (author_id c) = cr)"
  from r have eq: "remove cr c p s =
      (Removed (q ! nat (p - 2)),
       s\<lparr>guild_queues := (guild_queues s)(ctx_guild_id c \<mapsto> remove1 (q ! nat (p - 2)) q)\<rparr>)"
    using remove_in_range[OF assms, of p cr] a by simp
  show "fst (remove cr c p s) = Removed (q ! nat (p - 2))"
    by (simp add: eq)
  assume d: "q ! nat (p - 2) \<notin> set (take (nat (p - 2)) q)"
  have i: "nat (p - 2) < length q" using r by linarith
  show "queue_of (snd (remove cr c p s)) (ctx_guild_id c)
          = take (nat (p - 2)) q @ drop (Suc (nat (p - 2))) q"
    using remove1_nth_first[OF i d] by (simp add: eq queue_of_def get_default_def)
qed

text \<open>One queued track B of user 1: positions 1 and 3 are invalid, position 2 removes B.\<close>

theorem remove_positions_witness:
  "remove None (caller 1 []) 1 (session_A [track_B] {||})
     = (InvalidQueueNumber 2, session_A [track_B] {||})
   \<and> remove None (caller 1 []) 3 (session_A [track_B] {||})
     = (InvalidQueueNumber 2, session_A [track_B] {||})
   \<and> fst (remove None (caller 1 []) 2 (session_A [track_B] {||})) = Removed track_B
   \<and> queue_of (snd (remove None (caller 1 []) 2 (session_A [track_B] {||}))) 1 = []"
  using remove_positions[of "session_A [track_B] {||}" "caller 1 []" "[track_B]" None 3]
    remove_positions[of "session_A [track_B] {||}" "caller 1 []" "[track_B]" None 2]
  by (simp add: ex_defs queue_of_def get_default_def)

text \<open>Position 1 on an empty queue gets the queue-is-empty reply, not the invalid-number one.\<close>

theorem remove_empty_queue_counterexample:
  "fst (remove None (caller 1 []) 1 (session_A [] {||})) = QueueIsEmpty
   \<and> fst (remove None (caller 1 []) 1 (session_A [] {||})) \<noteq> InvalidQueueNumber 1"
  by (simp add: remove_def ex_defs get_default_def Let_def)

text \<open>Line 452 removes by value: with B, A, B queued, position 4 is the second B, and the
  queue left is A, B, that is, the first B went.\<close>

lemma remove_by_value_example:
  "queue_of (snd (remove None (caller 1 []) 4 (session_A [track_B, track_A, track_B] {||}))) 1
     = [track_A, track_B]"
  by (simp add: remove_def ex_defs get_default_def Let_def queue_of_def truthy_def)

section \<open>The volume command (claims C6, C7)\<close>

lemma volume_nothing_playing:
  assumes "voice_clients s (ctx_guild_id c) = None
     \<or> (\<exists>vc. voice_clients s (ctx_guild_id c) = Some vc \<and> current_song vc = None)"
  shows "volume c vol s = (VolumeNothingPlaying, s)"
  using assms by (auto simp: volume_def Let_def)

lemma volume_in_range:
  assumes "voice_clients s (ctx_guild_id c) = Some vc" "current_song vc \<noteq> None"
    "0 \<le> vol" "vol \<le> 200"
  shows "volume c vol s =
     (VolumeSet vol,
      let s1 = s\<lparr>guild_volumes := (guild_volumes s)(ctx_guild_id c \<mapsto> real_of_int vol / 100)\<rparr>
      in case vc_source vc of
           Some (PCMVolumeTransformer loc g) \<Rightarrow>
             s1\<lparr>voice_clients := (voice_clients s1)
                  (ctx_guild_id c \<mapsto> vc\<lparr>vc_source :=
                     Some (PCMVolumeTransformer loc (real_of_int vol / 100))\<rparr>)\<rparr>
         | _ \<Rightarrow> s1)"
  using assms by (auto simp: volume_def Let_def split: option.splits audio_source.splits)

text \<open>
  Claim C6, as the code has it. For \<open>0 \<le> vol \<le> 200\<close>, when the guild has a voice client with a
  current song, \<open>volume\<close> succeeds, stores \<open>vol / 100\<close> as the guild's volume and, when the
  attached source is a \<open>PCMVolumeTransformer\<close>, sets its volume to \<open>vol / 100\<close> in place. When
  there is no voice client or no current song the command answers that nothing is playing and
  the state, the stored volume included, is unchanged.
\<close>

theorem volume_set_in_range:
  assumes "0 \<le> vol" "vol \<le> 200"
  shows "(voice_clients s (ctx_guild_id c) = Some vc \<and> current_song vc \<noteq> None \<longrightarrow>
            fst (volume c vol s) = VolumeSet vol
            \<and> guild_volumes (snd (volume c vol s)) (ctx_guild_id c) = Some (real_of_int vol / 100)
            \<and> (\<forall>loc g. vc_source vc = Some (PCMVolumeTransformer loc g) \<longrightarrow>
                 voice_clients (snd (volume c vol s)) (ctx_guild_id c)
                   = Some (vc\<lparr>vc_source :=
                        Some (PCMVolumeTransformer loc (real_of_int vol / 100))\<rparr>)))
     \<and> (voice_clients s (ctx_guild_id c) = None
          \<or> (\<exists>vc'. voice_clients s (ctx_guild_id c) = Some vc' \<and> current_song vc' = None) \<longrightarrow>
            volume c vol s = (VolumeNothingPlaying, s))"
proof (intro conjI impI)
  assume a: "voice_clients s (ctx_guild_id c) = Some vc \<and> current_song vc \<noteq> None"
  note eq = volume_in_range[OF conjunct1[OF a] conjunct2[OF a] assms]
  show "fst (volume c vol s) = VolumeSet vol"
    by (simp add: eq)
  show "guild_volumes (snd (volume c vol s)) (ctx_guild_id c) = Some (real_of_int vol / 100)"
    by (simp add: eq Let_def split: option.splits audio_source.splits)
  show "\<forall>loc g. vc_source vc = Some (PCMVolumeTransformer loc g) \<longrightarrow>
          voice_clients (snd (volume c vol s)) (ctx_guild_id c)
            = Some (vc\<lparr>vc_source := Some (PCMVolumeTransformer loc (real_of_int vol / 100))\<rparr>)"
    by (simp add: eq Let_def)
next
  assume "voice_clients s (ctx_guild_id c) = None
     \<or> (\<exists>vc'. voice_clients s (ctx_guild_id c) = Some vc' \<and> current_song vc' = None)"
  then show "volume c vol s = (VolumeNothingPlaying, s)"
    by (rule volume_nothing_playing)
qed

text \<open>Volume 150 while track A plays: stored volume and gain become 3/2.\<close>

theorem volume_set_in_range_witness:
  "fst (volume (caller 2 []) 150 (session_A [] {||})) = VolumeSet 150
   \<and> guild_volumes (snd (volume (caller 2 []) 150 (session_A [] {||}))) 1 = Some (3 / 2)
   \<and> voice_clients (snd (volume (caller 2 []) 150 (session_A [] {||}))) 1
       = Some (playing_A\<lparr>vc_source :=
                 Some (PCMVolumeTransformer ''https://cdn.example.org/a'' (3 / 2))\<rparr>)"
  using volume_set_in_range[of 150 "session_A [] {||}" "caller 2 []" playing_A]
  by (simp add: ex_defs)

text \<open>Volume 150 with no voice client: nothing is stored for the guild.\<close>

theorem volume_not_stored_counterexample:
  "fst (volume (caller 2 []) 150 empty_state) = VolumeNothingPlaying
   \<and> guild_volumes empty_state 1 = None
   \<and> guild_volumes (snd (volume (caller 2 []) 150 empty_state)) 1 = None"
  by (simp add: volume_def ex_defs Let_def)

text \<open>
  Claim C7, as the code has it. For \<open>vol\<close> below 0 or above 200, \<open>volume\<close> never succeeds and
  leaves the whole state unchanged, so neither the stored volume nor the gain of the source is
  touched or clamped. The reply is the out-of-range one when the guild has a voice client with
  a current song, and the nothing-is-playing one otherwise.
\<close>

theorem volume_rejects_out_of_range:
  assumes "vol < 0 \<or> vol > 200"
  shows "snd (volume c vol s) = s
     \<and> fst (volume c vol s) \<noteq> VolumeSet vol
     \<and> (voice_clients s (ctx_guild_id c) = Some vc \<and> current_song vc \<noteq> None \<longrightarrow>
          fst (volume c vol s) = VolumeMustBeBetween)
     \<and> (voice_clients s (ctx_guild_id c) = None
          \<or> (\<exists>vc'. voice_clients s (ctx_guild_id c) = Some vc' \<and> current_song vc' = None) \<longrightarrow>
          fst (volume c vol s) = VolumeNothingPlaying)"
  using assms
  by (auto simp: volume_def Let_def split: option.splits)

text \<open>Volume 250 while track A plays is refused and the stored volume stays 1.\<close>

theorem volume_rejects_out_of_range_witness:
  "volume (caller 2 []) 250 (session_A [] {||}) = (VolumeMustBeBetween, session_A [] {||})
   \<and> guild_volumes (snd (volume (caller 2 []) 250 (session_A [] {||}))) 1 = Some 1"
  using volume_rejects_out_of_range[of 250 "caller 2 []" "session_A [] {||}" playing_A]
  by (simp add: ex_defs prod_eq_iff)

text \<open>Volume 250 with no voice client: the reply is that nothing is playing.\<close>

theorem volume_out_of_range_reply_counterexample:
  "fst (volume (caller 2 []) 250 empty_state) = VolumeNothingPlaying
   \<and> fst (volume (caller 2 []) 250 empty_state) \<noteq> VolumeMustBeBetween"
  by (simp add: volume_def ex_defs Let_def)

section \<open>Resolution failure in play (claim C9)\<close>

lemma preload_song_fails:
  "fetch_song ydl query = Inl e \<Longrightarrow> preload_song ydl query rid s = Inl e"
  by (simp add: preload_song_def)

lemma play_on_failure:
  assumes e: "fetch_song ydl query = Inl e"
  shows "play ydl connect_raises source_raises play_raises c query s =
      (let s0 = s\<lparr>guild_queues := setdefault (guild_queues s) (ctx_guild_id c) [],
               guild_playing := setdefault (guild_playing s) (ctx_guild_id c) False,
               guild_volumes := setdefault (guild_volumes s) (ctx_guild_id c) 1\<rparr> in
       case ensure_connected connect_raises c s0 of
         Inl err \<Rightarrow> (err, s0) | Inr s1 \<Rightarrow> (ErrorLoadingTrack e, s1))"
  unfolding play_def Let_def
  by (cases "ensure_connected connect_raises c
        (s\<lparr>guild_queues := setdefault (guild_queues s) (ctx_guild_id c) [],
               guild_playing := setdefault (guild_playing s) (ctx_guild_id c) False,
               guild_volumes := setdefault (guild_volumes s) (ctx_guild_id c) 1\<rparr>)")
     (simp_all add: preload_song_fails[OF e])


lemma fetch_song_fails_iff:
  "(\<exists>e. fetch_song ydl query = Inl e)
     \<longleftrightarrow> ydl query = ExtractRaises \<or> ydl query = NoInfo \<or> ydl query = SearchEntries []"
  by (cases "ydl query") (auto simp: fetch_song_def split: list.splits)

lemma ensure_connected_queues:
  "ensure_connected cr c s = Inr s1 \<Longrightarrow> guild_queues s1 = guild_queues s"
  by (auto simp: ensure_connected_def Let_def split: option.splits if_splits)

lemma ensure_connected_error:
  "ensure_connected cr c s = Inl err \<Longrightarrow> err = CouldNotConnect \<or> err = MustBeInVoiceToPlay"
  by (auto simp: ensure_connected_def Let_def split: option.splits if_splits)

lemma ensure_connected_succeeds:
  "voice_clients s (ctx_guild_id c) \<noteq> None \<or> (author_voice c \<noteq> None \<and> \<not> cr)
     \<Longrightarrow> \<exists>s1. ensure_connected cr c s = Inr s1"
  by (auto simp: ensure_connected_def Let_def split: option.splits if_splits)

lemma get_default_setdefault: "get_default (setdefault d k v) k' v = get_default d k' v"
  by (simp add: get_default_def setdefault_def split: option.splits)

text \<open>
  Claim C9. When the extractor raises, returns nothing, or returns a search result with no
  entry, \<open>fetch_song\<close> fails and \<open>play\<close> replies with an error: the loading error carrying that
  failure whenever the bot is or gets connected, and otherwise the connection error that stopped
  the command before. In every case the queue of every guild is what it was.
\<close>

theorem play_resolution_failure:
  assumes "ydl query = ExtractRaises \<or> ydl query = NoInfo \<or> ydl query = SearchEntries []"
  shows "(\<exists>e. fetch_song ydl query = Inl e
           \<and> (fst (play ydl connect_raises source_raises play_raises c query s) = ErrorLoadingTrack e
              \<or> fst (play ydl connect_raises source_raises play_raises c query s) = CouldNotConnect
              \<or> fst (play ydl connect_raises source_raises play_raises c query s) = MustBeInVoiceToPlay)
           \<and> (voice_clients s (ctx_guild_id c) \<noteq> None
                \<or> (author_voice c \<noteq> None \<and> \<not> connect_raises) \<longrightarrow>
               fst (play ydl connect_raises source_raises play_raises c query s) = ErrorLoadingTrack e))
     \<and> (\<forall>g. queue_of (snd (play ydl connect_raises source_raises play_raises c query s)) g = queue_of s g)"
proof -
  from assms obtain e where e: "fetch_song ydl query = Inl e"
    using fetch_song_fails_iff[of ydl query] by blast
  define s0 where "s0 = s\<lparr>guild_queues := setdefault (guild_queues s) (ctx_guild_id c) [],
               guild_playing := setdefault (guild_playing s) (ctx_guild_id c) False,
               guild_volumes := setdefault (guild_volumes s) (ctx_guild_id c) 1\<rparr>"
  have p: "play ydl connect_raises source_raises play_raises c query s =
      (case ensure_connected connect_raises c s0 of
         Inl err \<Rightarrow> (err, s0) | Inr s1 \<Rightarrow> (ErrorLoadingTrack e, s1))"
    unfolding s0_def by (rule play_on_failure[OF e, unfolded Let_def])
  have q0: "queue_of s0 g = queue_of s g" for g
    by (simp add: s0_def queue_of_def get_default_setdefault)
  have v0: "voice_clients s0 = voice_clients s"
    by (simp add: s0_def)
  have q: "queue_of (snd (play ydl connect_raises source_raises play_raises c query s)) g = queue_of s g" for g
  proof (cases "ensure_connected connect_raises c s0")
    case (Inl err)
    then show ?thesis by (simp add: p q0)
  next
    case (Inr s1)
    then show ?thesis
      using ensure_connected_queues[OF Inr] q0[of g] by (simp add: p queue_of_def)
  qed
  have o: "fst (play ydl connect_raises source_raises play_raises c query s) = ErrorLoadingTrack e
      \<or> fst (play ydl connect_raises source_raises play_raises c query s) = CouldNotConnect
      \<or> fst (play ydl connect_raises source_raises play_raises c query s) = MustBeInVoiceToPlay"
  proof (cases "ensure_connected connect_raises c s0")
    case (Inl err)
    then show ?thesis using ensure_connected_error[OF Inl] by (auto simp: p)
  next
    case (Inr s1)
    then show ?thesis by (simp add: p)
  qed
  have r: "fst (play ydl connect_raises source_raises play_raises c query s) = ErrorLoadingTrack e"
    if "voice_clients s (ctx_guild_id c) \<noteq> None \<or> (author_voice c \<noteq> None \<and> \<not> connect_raises)"
  proof -
    from that have "voice_clients s0 (ctx_guild_id c) \<noteq> None
        \<or> (author_voice c \<noteq> None \<and> \<not> connect_raises)"
      by (simp add: v0)
    from ensure_connected_succeeds[OF this] obtain s1
      where "ensure_connected connect_raises c s0 = Inr s1" by blast
    then show ?thesis by (simp add: p)
  qed
  show ?thesis using e q o r by blast
qed


text \<open>A query for which the extractor finds nothing, with track B queued.\<close>

theorem play_resolution_failure_witness:
  "fst (play failing_ydl False False False (caller 2 [2]) ''nothing'' (session_A [track_B] {||}))
     = ErrorLoadingTrack NoInfoReturned
   \<and> queue_of (snd (play failing_ydl False False False (caller 2 [2]) ''nothing''
        (session_A [track_B] {||}))) 1 = [track_B]"
proof -
  have f: "fetch_song failing_ydl ''nothing'' = Inl NoInfoReturned"
    by (simp add: fetch_song_def failing_ydl_def)
  have v: "voice_clients (session_A [track_B] {||}) (ctx_guild_id (caller 2 [2])) \<noteq> None"
    by (simp add: session_A_def empty_state_def caller_def)
  have q: "queue_of (session_A [track_B] {||}) 1 = [track_B]"
    by (simp add: session_A_def empty_state_def queue_of_def get_default_def)
  have h: "failing_ydl ''nothing'' = ExtractRaises \<or> failing_ydl ''nothing'' = NoInfo
      \<or> failing_ydl ''nothing'' = SearchEntries []"
    by (simp add: failing_ydl_def)
  show ?thesis
    using play_resolution_failure[of failing_ydl "''nothing''" False False False "caller 2 [2]"
        "session_A [track_B] {||}"] h f v q
    by auto
qed

section \<open>The locator cache (claim C10)\<close>

lemma play_next_head:
  assumes "queue_of s (ctx_guild_id c) = sg # rest" "voice_clients s (ctx_guild_id c) = Some vc"
  shows "play_next sr pr c s =
     (let gid = ctx_guild_id c;
          s2 = s\<lparr>guild_queues := (guild_queues s)(gid \<mapsto> rest),
                 guild_playing := (guild_playing s)(gid \<mapsto> True),
                 voice_clients := (voice_clients s)(gid \<mapsto> vc\<lparr>current_song := Some sg\<rparr>)\<rparr>
      in case locator_for s sg of
           None \<Rightarrow> (SourceFailed sg, s2)
         | Some loc \<Rightarrow>
             if sr then (SourceFailed sg, s2)
             else if pr \<or> vc_is_playing vc then (PlayFailed sg, s2)
             else (NowPlaying sg,
                   rearm gid
                     (s2\<lparr>voice_clients := (voice_clients s2)(gid \<mapsto>
                            vc\<lparr>current_song := Some sg, vc_is_playing := True,
                               vc_is_paused := False,
                               vc_source := Some (PCMVolumeTransformer loc
                                 (get_default (guild_volumes s) gid 1))\<rparr>)\<rparr>)))"
  using assms
  by (simp add: play_next_def queue_of_def Let_def locator_for_def split: option.splits)

lemma rearm_fields:
  "voice_clients (rearm gid s) = voice_clients s"
  "guild_queues (rearm gid s) = guild_queues s"
  "guild_playing (rearm gid s) = guild_playing s"
  by (simp_all add: rearm_def)

lemma play_next_now_playing_only:
  assumes "fst (play_next sr pr c s) = NowPlaying sg"
  shows "\<exists>rest vc loc. queue_of s (ctx_guild_id c) = sg # rest
           \<and> voice_clients s (ctx_guild_id c) = Some vc
           \<and> locator_for s sg = Some loc \<and> \<not> sr \<and> \<not> pr \<and> \<not> vc_is_playing vc"
proof (cases "queue_of s (ctx_guild_id c)")
  case Nil
  then show ?thesis using assms by (simp add: play_next_def queue_of_def Let_def)
next
  case (Cons sg' rest)
  show ?thesis
  proof (cases "voice_clients s (ctx_guild_id c)")
    case None
    then show ?thesis using assms Cons by (simp add: play_next_def queue_of_def Let_def)
  next
    case (Some vc)
    from assms show ?thesis
      unfolding play_next_head[OF Cons Some]
      by (auto simp: Let_def Cons Some split: option.splits if_splits)
  qed
qed

lemma preload_song_total:
  assumes "fetch_song ydl query = Inr sg0"
  shows "preload_song ydl query rid s =
     Inr (sg0\<lparr>requester_id := Some rid\<rparr>,
          s\<lparr>audio_cache := (audio_cache s)(webpage_url sg0 \<mapsto> audio_url sg0)\<rparr>)"
  using assms by (simp add: preload_song_def Let_def)

lemma preload_song_cache:
  assumes "preload_song ydl query rid s = Inr (sg, s')"
  shows "\<exists>sg0. fetch_song ydl query = Inr sg0 \<and> sg = sg0\<lparr>requester_id := Some rid\<rparr>
           \<and> s' = s\<lparr>audio_cache := (audio_cache s)(webpage_url sg0 \<mapsto> audio_url sg0)\<rparr>"
proof (cases "fetch_song ydl query")
  case (Inl e)
  then show ?thesis using assms by (simp add: preload_song_def)
next
  case (Inr sg0)
  then show ?thesis using assms by (simp add: preload_song_def Let_def)
qed

text \<open>
  Claim C10. \<open>play_next\<close> starts the head of the queue exactly when the guild has a voice client
  that is not already playing, \<open>locator_for\<close> of that track is a locator, and neither the FFmpeg
  source nor \<open>voice_client.play\<close> raises; no other track is ever started. The source then handed
  to the voice client wraps \<open>locator_for\<close> of the track: the cache entry under the track's
  \<open>webpage_url\<close> when there is one, and the track's own \<open>audio_url\<close> only when the cache has none.
  When the locator is None or the FFmpeg source raises, nothing is started: the track is popped,
  the guild is marked as playing and the client only carries the track as its current song.
  \<open>preload_song\<close> succeeds whenever \<open>fetch_song\<close> does, and then writes the cache entry of the
  resolved track's \<open>webpage_url\<close> with the locator just resolved, whatever was there before, and
  leaves every other entry alone.
\<close>

theorem cached_locator_preferred:
  "(fst (play_next sr pr c s) = NowPlaying sg' \<longrightarrow>
      (\<exists>rest' vc' loc'. queue_of s (ctx_guild_id c) = sg' # rest'
         \<and> voice_clients s (ctx_guild_id c) = Some vc'
         \<and> locator_for s sg' = Some loc' \<and> \<not> sr \<and> \<not> pr \<and> \<not> vc_is_playing vc'))
   \<and> (queue_of s (ctx_guild_id c) = sg # rest \<and> voice_clients s (ctx_guild_id c) = Some vc \<longrightarrow>
        (\<forall>loc. locator_for s sg = Some loc \<and> \<not> sr \<and> \<not> pr \<and> \<not> vc_is_playing vc \<longrightarrow>
           fst (play_next sr pr c s) = NowPlaying sg
           \<and> voice_clients (snd (play_next sr pr c s)) (ctx_guild_id c)
               = Some (vc\<lparr>current_song := Some sg, vc_is_playing := True, vc_is_paused := False,
                          vc_source := Some (PCMVolumeTransformer loc
                            (get_default (guild_volumes s) (ctx_guild_id c) 1))\<rparr>))
        \<and> (locator_for s sg = None \<or> sr \<longrightarrow>
             fst (play_next sr pr c s) = SourceFailed sg
             \<and> voice_clients (snd (play_next sr pr c s)) (ctx_guild_id c)
                 = Some (vc\<lparr>current_song := Some sg\<rparr>)
             \<and> queue_of (snd (play_next sr pr c s)) (ctx_guild_id c) = rest
             \<and> guild_playing (snd (play_next sr pr c s)) (ctx_guild_id c) = Some True))
   \<and> (\<forall>loc. audio_cache s (webpage_url sg) = Some loc \<longrightarrow> locator_for s sg = loc)
   \<and> (audio_cache s (webpage_url sg) = None \<longrightarrow> locator_for s sg = audio_url sg)
   \<and> (\<forall>sg0. fetch_song ydl query = Inr sg0 \<longrightarrow>
         preload_song ydl query rid s =
           Inr (sg0\<lparr>requester_id := Some rid\<rparr>,
                s\<lparr>audio_cache := (audio_cache s)(webpage_url sg0 \<mapsto> audio_url sg0)\<rparr>))
   \<and> (\<forall>sg1 s1. preload_song ydl query rid s = Inr (sg1, s1) \<longrightarrow>
         audio_cache s1 (webpage_url sg1) = Some (audio_url sg1)
         \<and> (\<forall>k. k \<noteq> webpage_url sg1 \<longrightarrow> audio_cache s1 k = audio_cache s k)
         \<and> requester_id sg1 = Some rid
         \<and> (\<exists>sg0. fetch_song ydl query = Inr sg0 \<and> audio_url sg1 = audio_url sg0
               \<and> webpage_url sg1 = webpage_url sg0))"
proof (intro conjI impI allI)
  assume "fst (play_next sr pr c s) = NowPlaying sg'"
  then show "\<exists>rest' vc' loc'. queue_of s (ctx_guild_id c) = sg' # rest'
         \<and> voice_clients s (ctx_guild_id c) = Some vc'
         \<and> locator_for s sg' = Some loc' \<and> \<not> sr \<and> \<not> pr \<and> \<not> vc_is_playing vc'"
    by (rule play_next_now_playing_only)
next
  fix loc
  assume a: "queue_of s (ctx_guild_id c) = sg # rest \<and> voice_clients s (ctx_guild_id c) = Some vc"
    and b: "locator_for s sg = Some loc \<and> \<not> sr \<and> \<not> pr \<and> \<not> vc_is_playing vc"
  note eq = play_next_head[OF conjunct1[OF a] conjunct2[OF a], of sr pr]
  show "fst (play_next sr pr c s) = NowPlaying sg"
    unfolding eq using b by (simp add: Let_def)
  show "voice_clients (snd (play_next sr pr c s)) (ctx_guild_id c)
               = Some (vc\<lparr>current_song := Some sg, vc_is_playing := True, vc_is_paused := False,
                          vc_source := Some (PCMVolumeTransformer loc
                            (get_default (guild_volumes s) (ctx_guild_id c) 1))\<rparr>)"
    unfolding eq using b by (simp add: Let_def rearm_fields)
next
  assume a: "queue_of s (ctx_guild_id c) = sg # rest \<and> voice_clients s (ctx_guild_id c) = Some vc"
    and b: "locator_for s sg = None \<or> sr"
  note eq = play_next_head[OF conjunct1[OF a] conjunct2[OF a], of sr pr]
  have r: "play_next sr pr c s =
      (SourceFailed sg,
       s\<lparr>guild_queues := (guild_queues s)(ctx_guild_id c \<mapsto> rest),
         guild_playing := (guild_playing s)(ctx_guild_id c \<mapsto> True),
         voice_clients := (voice_clients s)(ctx_guild_id c \<mapsto> vc\<lparr>current_song := Some sg\<rparr>)\<rparr>)"
    unfolding eq using b by (auto simp: Let_def split: option.splits)
  show "fst (play_next sr pr c s) = SourceFailed sg"
    by (simp add: r)
  show "voice_clients (snd (play_next sr pr c s)) (ctx_guild_id c)
                 = Some (vc\<lparr>current_song := Some sg\<rparr>)"
    by (simp add: r)
  show "queue_of (snd (play_next sr pr c s)) (ctx_guild_id c) = rest"
    by (simp add: r queue_of_def get_default_def)
  show "guild_playing (snd (play_next sr pr c s)) (ctx_guild_id c) = Some True"
    by (simp add: r)
next
  fix loc assume "audio_cache s (webpage_url sg) = Some loc"
  then show "locator_for s sg = loc" by (simp add: locator_for_def get_default_def)
next
  assume "audio_cache s (webpage_url sg) = None"
  then show "locator_for s sg = audio_url sg" by (simp add: locator_for_def get_default_def)
next
  fix sg0 assume "fetch_song ydl query = Inr sg0"
  then show "preload_song ydl query rid s =
           Inr (sg0\<lparr>requester_id := Some rid\<rparr>,
                s\<lparr>audio_cache := (audio_cache s)(webpage_url sg0 \<mapsto> audio_url sg0)\<rparr>)"
    by (rule preload_song_total)
next
  fix sg1 s1 assume p: "preload_song ydl query rid s = Inr (sg1, s1)"
  from preload_song_cache[OF p] obtain sg0 where
    f: "fetch_song ydl query = Inr sg0" and g: "sg1 = sg0\<lparr>requester_id := Some rid\<rparr>"
    and h: "s1 = s\<lparr>audio_cache := (audio_cache s)(webpage_url sg0 \<mapsto> audio_url sg0)\<rparr>"
    by blast
  show "audio_cache s1 (webpage_url sg1) = Some (audio_url sg1)"
    by (simp add: g h)
  show "requester_id sg1 = Some rid"
    by (simp add: g)
  show "\<exists>sg0. fetch_song ydl query = Inr sg0 \<and> audio_url sg1 = audio_url sg0
               \<and> webpage_url sg1 = webpage_url sg0"
    using f by (simp add: g)
  fix k assume "k \<noteq> webpage_url sg1"
  then show "audio_cache s1 k = audio_cache s k"
    by (simp add: g h)
qed

text \<open>The cache holds an older locator for track B's page. Resolving query b for user 1
  overwrites it with the fresh one; the queued track B carries yet another locator, and the
  cached one is played.\<close>

theorem cached_locator_preferred_witness:
  "audio_cache stale_B (Some ''https://example.org/b'') = Some (Some ''https://cdn.example.org/b0'')
   \<and> preload_song ydl_B ''b'' 1 stale_B
       = Inr (track_B\<lparr>audio_url := Some ''https://cdn.example.org/b2''\<rparr>, cached_B)
   \<and> audio_url track_B = Some ''https://cdn.example.org/b''
   \<and> fst (play_next False False (caller 1 [1]) cached_B) = NowPlaying track_B
   \<and> voice_clients (snd (play_next False False (caller 1 [1]) cached_B)) 1
       = Some (ended_A\<lparr>current_song := Some track_B, vc_is_playing := True, vc_is_paused := False,
                 vc_source := Some (PCMVolumeTransformer ''https://cdn.example.org/b2'' 1)\<rparr>)"
proof -
  note w = cached_locator_preferred[of False False "caller 1 [1]" cached_B track_B track_B "[]"
      ended_A ydl_B "''b''" 1]
  note w' = cached_locator_preferred[of False False "caller 1 [1]" stale_B track_B track_B "[]"
      ended_A ydl_B "''b''" 1]
  have st: "audio_cache stale_B (Some ''https://example.org/b'')
      = Some (Some ''https://cdn.example.org/b0'')"
    by (simp add: stale_B_def)
  have f: "fetch_song ydl_B ''b'' =
      Inr (track_B\<lparr>audio_url := Some ''https://cdn.example.org/b2'', requester_id := None\<rparr>)"
    by (simp add: fetch_song_def ydl_B_def song_of_info_def track_B_def)
  have u: "stale_B\<lparr>audio_cache := (audio_cache stale_B)
        (webpage_url (track_B\<lparr>audio_url := Some ''https://cdn.example.org/b2'',
                                requester_id := None\<rparr>)
           \<mapsto> audio_url (track_B\<lparr>audio_url := Some ''https://cdn.example.org/b2'',
                                requester_id := None\<rparr>))\<rparr> = cached_B"
    by (simp add: stale_B_def cached_B_def track_B_def)
  have t: "track_B\<lparr>audio_url := Some ''https://cdn.example.org/b2'', requester_id := None,
                   requester_id := Some 1\<rparr>
      = track_B\<lparr>audio_url := Some ''https://cdn.example.org/b2''\<rparr>"
    by (simp add: track_B_def)
  note w5 = w'[THEN conjunct2, THEN conjunct2, THEN conjunct2, THEN conjunct2, THEN conjunct1,
      THEN spec, THEN mp, OF f]
  have p: "preload_song ydl_B ''b'' 1 stale_B
      = Inr (track_B\<lparr>audio_url := Some ''https://cdn.example.org/b2''\<rparr>, cached_B)"
    using w5 by (simp only: u t)
  have q: "queue_of cached_B (ctx_guild_id (caller 1 [1])) = track_B # []"
    by (simp add: cached_B_def ex_defs queue_of_def get_default_def)
  have v: "voice_clients cached_B (ctx_guild_id (caller 1 [1])) = Some ended_A"
    by (simp add: cached_B_def ex_defs)
  have l: "locator_for cached_B track_B = Some ''https://cdn.example.org/b2''"
    by (simp add: locator_for_def get_default_def cached_B_def track_B_def)
  have n: "\<not> vc_is_playing ended_A"
    by (simp add: ended_A_def)
  have g: "get_default (guild_volumes cached_B) 1 1 = 1"
    by (simp add: cached_B_def ex_defs get_default_def)
  have i: "ctx_guild_id (caller 1 [1]) = 1"
    by (simp add: caller_def)
  have a: "audio_url track_B = Some ''https://cdn.example.org/b''"
    by (simp add: track_B_def)
  have pre: "locator_for cached_B track_B = Some ''https://cdn.example.org/b2''
      \<and> \<not> False \<and> \<not> False \<and> \<not> vc_is_playing ended_A"
    using l n by simp
  note r = w[THEN conjunct2, THEN conjunct1, THEN mp, OF conjI[OF q v], THEN conjunct1,
      THEN spec, THEN mp, OF pre, unfolded i g]
  show ?thesis
    using st p a r by (intro conjI) (erule conjunct1 conjunct2 | assumption)+
qed

section \<open>The idle watchdog (claim C3)\<close>

lemma idle_run_Nil: "idle_run gid [] = 0"
  by (simp add: idle_run_def)

lemma idle_run_snoc:
  "idle_run gid (ts @ [t]) = (if active gid t then 0 else Suc (idle_run gid ts))"
  by (simp add: idle_run_def)

lemma next_idle_run:
  "next_idle gid (5 * idle_run gid ts) t = 5 * idle_run gid (ts @ [t])"
  by (simp add: next_idle_def idle_run_snoc check_interval_def)

lemma loop_append:
  "auto_disconnect_loop gid i (xs @ ys) =
     (case auto_disconnect_loop gid i xs of
        StillPolling j \<Rightarrow> auto_disconnect_loop gid j ys
      | r \<Rightarrow> r)"
  by (induction xs arbitrary: i) (simp_all add: Let_def)

lemma loop_snoc:
  "auto_disconnect_loop gid i (ts @ [t]) =
     (case auto_disconnect_loop gid i ts of
        StillPolling j \<Rightarrow>
          if next_idle gid j t \<ge> 180 then TornDown (teardown gid t)
          else StillPolling (next_idle gid j t)
      | r \<Rightarrow> r)"
  by (simp add: loop_append Let_def split: watchdog_outcome.splits)

lemma loop_started: "auto_disconnect_loop gid i ts \<noteq> WatchdogNotStarted"
  by (induction ts arbitrary: i) (simp_all add: Let_def)

lemma prefixes_snoc:
  "(\<forall>m\<le>length (ts @ [t]). idle_run gid (take m (ts @ [t])) < 36)
     \<longleftrightarrow> (\<forall>m\<le>length ts. idle_run gid (take m ts) < 36) \<and> idle_run gid (ts @ [t]) < 36"
proof -
  have "(\<forall>m\<le>Suc (length ts). idle_run gid (take m (ts @ [t])) < 36)
     \<longleftrightarrow> (\<forall>m\<le>length ts. idle_run gid (take m (ts @ [t])) < 36)
         \<and> idle_run gid (take (Suc (length ts)) (ts @ [t])) < 36"
    by (auto simp: le_Suc_eq)
  then show ?thesis by simp
qed

lemma loop_still_polling:
  "auto_disconnect_loop gid 0 ts = StillPolling j
     \<longleftrightarrow> j = 5 * idle_run gid ts \<and> (\<forall>m\<le>length ts. idle_run gid (take m ts) < 36)"
proof (induction ts arbitrary: j rule: rev_induct)
  case Nil
  then show ?case by (auto simp: idle_run_Nil)
next
  case (snoc t ts)
  show ?case
  proof (cases "auto_disconnect_loop gid 0 ts")
    case WatchdogNotStarted
    then show ?thesis using loop_started[of gid 0 ts] by simp
  next
    case (StillPolling k)
    with snoc.IH[of k] have k: "k = 5 * idle_run gid ts"
      and pre: "\<forall>m\<le>length ts. idle_run gid (take m ts) < 36" by simp_all
    have "auto_disconnect_loop gid 0 (ts @ [t]) =
        (if 5 * idle_run gid (ts @ [t]) \<ge> 180 then TornDown (teardown gid t)
         else StillPolling (5 * idle_run gid (ts @ [t])))"
      by (simp add: loop_snoc StillPolling k next_idle_run)
    moreover have "(\<forall>m\<le>length (ts @ [t]). idle_run gid (take m (ts @ [t])) < 36)
        \<longleftrightarrow> idle_run gid (ts @ [t]) < 36"
      using pre prefixes_snoc[of ts t gid] by blast
    ultimately show ?thesis
      by (simp only: split: if_splits) auto
  next
    case (TornDown s')
    have "\<not> (\<forall>m\<le>length ts. idle_run gid (take m ts) < 36)"
      using snoc.IH[of "5 * idle_run gid ts"] TornDown by simp
    then have "\<not> (\<forall>m\<le>length (ts @ [t]). idle_run gid (take m (ts @ [t])) < 36)"
      using prefixes_snoc[of ts t gid] by blast
    moreover have "auto_disconnect_loop gid 0 (ts @ [t]) = TornDown s'"
      by (simp add: loop_snoc TornDown)
    ultimately show ?thesis
      by (simp only: watchdog_outcome.distinct simp_thms)
  qed
qed

lemma loop_torn_down_only:
  "auto_disconnect_loop gid 0 ts = TornDown s' \<Longrightarrow>
     \<exists>n<length ts. 36 \<le> idle_run gid (take (Suc n) ts)
        \<and> (\<forall>m\<le>n. idle_run gid (take m ts) < 36) \<and> s' = teardown gid (ts ! n)"
proof (induction ts rule: rev_induct)
  case Nil
  then show ?case by simp
next
  case (snoc t ts)
  show ?case
  proof (cases "auto_disconnect_loop gid 0 ts")
    case WatchdogNotStarted
    then show ?thesis using loop_started[of gid 0 ts] by simp
  next
    case (StillPolling k)
    then have k: "k = 5 * idle_run gid ts"
      and pre: "\<forall>m\<le>length ts. idle_run gid (take m ts) < 36"
      by (simp_all add: loop_still_polling)
    from snoc.prems have "5 * idle_run gid (ts @ [t]) \<ge> 180" and "s' = teardown gid t"
      by (simp_all add: loop_snoc StillPolling k next_idle_run split: if_splits)
    then have "36 \<le> idle_run gid (take (Suc (length ts)) (ts @ [t]))"
      and "\<forall>m\<le>length ts. idle_run gid (take m (ts @ [t])) < 36"
      and "s' = teardown gid ((ts @ [t]) ! length ts)"
      using pre by simp_all
    then show ?thesis
      by (intro exI[of _ "length ts"]) simp
  next
    case (TornDown s'')
    with snoc.prems have "s'' = s'" by (simp add: loop_snoc)
    with TornDown snoc.IH obtain n where n: "n < length ts"
      "36 \<le> idle_run gid (take (Suc n) ts)" "\<forall>m\<le>n. idle_run gid (take m ts) < 36"
      "s' = teardown gid (ts ! n)" by blast
    then have "n < length (ts @ [t])" "36 \<le> idle_run gid (take (Suc n) (ts @ [t]))"
      "\<forall>m\<le>n. idle_run gid (take m (ts @ [t])) < 36" "s' = teardown gid ((ts @ [t]) ! n)"
      by (simp_all add: nth_append)
    then show ?thesis by blast
  qed
qed

lemma loop_torn_down_if:
  assumes "n < length ts" "36 \<le> idle_run gid (take (Suc n) ts)"
    "\<forall>m\<le>n. idle_run gid (take m ts) < 36"
  shows "auto_disconnect_loop gid 0 ts = TornDown (teardown gid (ts ! n))"
proof -
  have ts: "ts = (take n ts @ [ts ! n]) @ drop (Suc n) ts"
    using assms(1) by (simp add: id_take_nth_drop)
  have sn: "take (Suc n) ts = take n ts @ [ts ! n]"
    using assms(1) by (simp add: take_Suc_conv_app_nth)
  have "\<forall>m\<le>length (take n ts). idle_run gid (take m (take n ts)) < 36"
    using assms(1,3) by (simp add: min_def)
  then have "auto_disconnect_loop gid 0 (take n ts) = StillPolling (5 * idle_run gid (take n ts))"
    by (simp add: loop_still_polling)
  then have "auto_disconnect_loop gid 0 (take n ts @ [ts ! n]) = TornDown (teardown gid (ts ! n))"
    using assms(2) by (simp add: loop_snoc next_idle_run sn)
  then have "auto_disconnect_loop gid 0 ((take n ts @ [ts ! n]) @ drop (Suc n) ts)
      = TornDown (teardown gid (ts ! n))"
    by (simp only: loop_append watchdog_outcome.case)
  then show ?thesis using ts by simp
qed

lemma idle_run_ge_iff:
  "k \<le> idle_run gid ts
     \<longleftrightarrow> k \<le> length ts \<and> (\<forall>t\<in>set (drop (length ts - k) ts). \<not> active gid t)"
proof (induction ts arbitrary: k rule: rev_induct)
  case Nil
  then show ?case by (simp add: idle_run_Nil)
next
  case (snoc t ts)
  show ?case
  proof (cases k)
    case 0
    then show ?thesis by simp
  next
    case (Suc k')
    have d: "drop (length (ts @ [t]) - k) (ts @ [t]) = drop (length ts - k') ts @ [t]"
      by (simp add: Suc)
    have "k \<le> idle_run gid (ts @ [t]) \<longleftrightarrow> \<not> active gid t \<and> k' \<le> idle_run gid ts"
      by (simp add: idle_run_snoc Suc)
    also have "\<dots> \<longleftrightarrow> \<not> active gid t \<and> k' \<le> length ts
        \<and> (\<forall>t\<in>set (drop (length ts - k') ts). \<not> active gid t)"
      using snoc.IH[of k'] by simp
    also have "\<dots> \<longleftrightarrow> k \<le> length (ts @ [t])
        \<and> (\<forall>t\<in>set (drop (length ts - k') ts @ [t]). \<not> active gid t)"
      by (auto simp: Suc)
    finally show ?thesis unfolding d .
  qed
qed

lemma active_iff:
  "active gid t \<longleftrightarrow>
     (\<exists>m\<in>set (tick_members t). \<not> member_bot m) \<or> tick_is_playing t
       \<or> queue_of (tick_state t) gid \<noteq> []"
  by (auto simp: active_def non_bots_def queue_of_def filter_empty_conv)

lemma teardown_effects:
  "guild_playing (teardown gid t) gid = Some False"
  "guild_queues (teardown gid t) gid = Some []"
  "skip_votes (teardown gid t) gid = Some {||}"
  "disconnect_tasks (teardown gid t) gid = None"
  "voice_clients (teardown gid t) gid
     = (if tick_disconnect_raises t then voice_clients (tick_state t) gid else None)"
  by (simp_all add: teardown_def disconnect_def Let_def)

lemma idle_run_active_Cons:
  assumes "active gid t"
  shows "idle_run gid (t # ts) \<le> length ts"
proof (rule ccontr)
  assume "\<not> idle_run gid (t # ts) \<le> length ts"
  then have "Suc (length ts) \<le> idle_run gid (t # ts)" by simp
  then have "\<forall>x\<in>set (drop (length (t # ts) - Suc (length ts)) (t # ts)). \<not> active gid x"
    using idle_run_ge_iff[of "Suc (length ts)" gid "t # ts"] by blast
  then show False using assms by simp
qed

lemma auto_disconnect_torn_down_iff:
  assumes v: "voice_clients s (ctx_guild_id c) \<noteq> None"
  shows "auto_disconnect c s ticks = TornDown s' \<longleftrightarrow>
           (\<exists>n<length ticks.
               36 \<le> idle_run (ctx_guild_id c) (take (Suc n) ticks)
               \<and> (\<forall>m\<le>n. idle_run (ctx_guild_id c) (take m ticks) < 36)
               \<and> s' = teardown (ctx_guild_id c) (ticks ! n))"
proof -
  from v have eq: "auto_disconnect c s ticks = auto_disconnect_loop (ctx_guild_id c) 0 ticks"
    by (auto simp: auto_disconnect_def)
  show ?thesis
    unfolding eq
  proof
    assume "auto_disconnect_loop (ctx_guild_id c) 0 ticks = TornDown s'"
    then show "\<exists>n<length ticks.
               36 \<le> idle_run (ctx_guild_id c) (take (Suc n) ticks)
               \<and> (\<forall>m\<le>n. idle_run (ctx_guild_id c) (take m ticks) < 36)
               \<and> s' = teardown (ctx_guild_id c) (ticks ! n)"
      by (rule loop_torn_down_only)
  next
    assume "\<exists>n<length ticks.
               36 \<le> idle_run (ctx_guild_id c) (take (Suc n) ticks)
               \<and> (\<forall>m\<le>n. idle_run (ctx_guild_id c) (take m ticks) < 36)
               \<and> s' = teardown (ctx_guild_id c) (ticks ! n)"
    then obtain n where n: "n < length ticks"
      "36 \<le> idle_run (ctx_guild_id c) (take (Suc n) ticks)"
      "\<forall>m\<le>n. idle_run (ctx_guild_id c) (take m ticks) < 36"
      "s' = teardown (ctx_guild_id c) (ticks ! n)" by blast
    show "auto_disconnect_loop (ctx_guild_id c) 0 ticks = TornDown s'"
      unfolding n(4) using n(1-3) by (rule loop_torn_down_if)
  qed
qed

text \<open>
  Claim C3. On every pass of its loop the watchdog sets its idle time to 0 when a member that is
  not a bot is in the channel, or the voice client is playing, or the guild's queue is not
  empty, and adds \<open>check_interval = 5\<close> otherwise. \<open>idle_run\<close> counts the inactive ticks at the
  end of a list: it is at least \<open>k\<close> exactly when the last \<open>k\<close> ticks are all inactive. A watchdog
  started with a voice client tears the session down at tick \<open>n\<close>, and returns, exactly when the
  ticks up to \<open>n\<close> end in 36 inactive ones (180 seconds of idle time) and no earlier prefix did;
  without a voice client it returns at once and does nothing. The teardown disconnects (the
  connection is left as it is when \<open>disconnect()\<close> raises), marks the guild as not playing,
  empties its queue and its votes, and removes the guild's task handle.
\<close>

theorem watchdog_teardown:
  "next_idle gid i t = (if active gid t then 0 else i + 5)
   \<and> (active gid t \<longleftrightarrow>
        (\<exists>m\<in>set (tick_members t). \<not> member_bot m) \<or> tick_is_playing t
          \<or> queue_of (tick_state t) gid \<noteq> [])
   \<and> (k \<le> idle_run gid ts \<longleftrightarrow>
        k \<le> length ts \<and> (\<forall>x\<in>set (drop (length ts - k) ts). \<not> active gid x))
   \<and> 36 * check_interval = 180
   \<and> (voice_clients s (ctx_guild_id c) = None \<longrightarrow>
        auto_disconnect c s ticks = WatchdogNotStarted)
   \<and> (voice_clients s (ctx_guild_id c) \<noteq> None \<longrightarrow>
        (auto_disconnect c s ticks = TornDown s' \<longleftrightarrow>
           (\<exists>n<length ticks.
               36 \<le> idle_run (ctx_guild_id c) (take (Suc n) ticks)
               \<and> (\<forall>m\<le>n. idle_run (ctx_guild_id c) (take m ticks) < 36)
               \<and> s' = teardown (ctx_guild_id c) (ticks ! n))))
   \<and> guild_playing (teardown gid t) gid = Some False
   \<and> guild_queues (teardown gid t) gid = Some []
   \<and> skip_votes (teardown gid t) gid = Some {||}
   \<and> disconnect_tasks (teardown gid t) gid = None
   \<and> voice_clients (teardown gid t) gid
       = (if tick_disconnect_raises t then voice_clients (tick_state t) gid else None)"
proof (intro conjI)
  show "next_idle gid i t = (if active gid t then 0 else i + 5)"
    by (simp add: next_idle_def check_interval_def)
  show "active gid t \<longleftrightarrow>
        (\<exists>m\<in>set (tick_members t). \<not> member_bot m) \<or> tick_is_playing t
          \<or> queue_of (tick_state t) gid \<noteq> []"
    by (rule active_iff)
  show "k \<le> idle_run gid ts \<longleftrightarrow>
        k \<le> length ts \<and> (\<forall>x\<in>set (drop (length ts - k) ts). \<not> active gid x)"
    by (rule idle_run_ge_iff)
  show "36 * check_interval = 180"
    by (simp add: check_interval_def)
  show "voice_clients s (ctx_guild_id c) = None \<longrightarrow>
        auto_disconnect c s ticks = WatchdogNotStarted"
    by (simp add: auto_disconnect_def)
  show "voice_clients s (ctx_guild_id c) \<noteq> None \<longrightarrow>
        (auto_disconnect c s ticks = TornDown s' \<longleftrightarrow>
           (\<exists>n<length ticks.
               36 \<le> idle_run (ctx_guild_id c) (take (Suc n) ticks)
               \<and> (\<forall>m\<le>n. idle_run (ctx_guild_id c) (take m ticks) < 36)
               \<and> s' = teardown (ctx_guild_id c) (ticks ! n)))"
    by (rule impI) (rule auto_disconnect_torn_down_iff)
qed (rule teardown_effects)+

text \<open>One active tick and then 36 inactive ones: still polling with 175 seconds after the
  35th, torn down at the 36th.\<close>

theorem watchdog_teardown_witness:
  "auto_disconnect (caller 1 []) (session_A [] {|2|}) (busy_tick # replicate 36 quiet_tick)
     = TornDown (teardown 1 quiet_tick)
   \<and> auto_disconnect_loop 1 0 (busy_tick # replicate 35 quiet_tick) = StillPolling 175
   \<and> guild_queues (teardown 1 quiet_tick) 1 = Some []
   \<and> skip_votes (teardown 1 quiet_tick) 1 = Some {||}
   \<and> voice_clients (teardown 1 quiet_tick) 1 = None"
proof -
  let ?ts = "busy_tick # replicate 36 quiet_tick"
  let ?c = "caller 1 []"
  let ?s = "session_A [] {|2|}"
  note w = watchdog_teardown[of 1 0 quiet_tick 0 "[]" ?s ?c ?ts "teardown 1 quiet_tick"]
  have q: "\<not> active 1 quiet_tick"
    by (simp add: active_def quiet_tick_def non_bots_def session_A_def empty_state_def
        get_default_def)
  have bz: "active 1 busy_tick"
    by (simp add: active_def busy_tick_def non_bots_def humans_def)
  have g: "ctx_guild_id ?c = 1"
    by (simp add: caller_def)
  have v: "voice_clients ?s (ctx_guild_id ?c) \<noteq> None"
    by (simp add: session_A_def empty_state_def caller_def)
  have hi: "36 \<le> idle_run 1 (take (Suc 36) ?ts)"
    using q by (simp add: idle_run_ge_iff)
  have lo: "idle_run 1 (take m ?ts) < 36" if "m \<le> 36" for m
  proof (cases m)
    case 0
    then show ?thesis by (simp add: idle_run_Nil)
  next
    case (Suc m')
    have "idle_run 1 (busy_tick # take m' (replicate 36 quiet_tick))
        \<le> length (take m' (replicate 36 quiet_tick))"
      using bz by (rule idle_run_active_Cons)
    then show ?thesis using that Suc by simp
  qed
  have ex: "\<exists>n<length ?ts.
       36 \<le> idle_run (ctx_guild_id ?c) (take (Suc n) ?ts)
       \<and> (\<forall>m\<le>n. idle_run (ctx_guild_id ?c) (take m ?ts) < 36)
       \<and> teardown 1 quiet_tick = teardown (ctx_guild_id ?c) (?ts ! n)"
  proof (intro exI[of _ 36] conjI allI impI)
    show "36 < length ?ts" by simp
    show "36 \<le> idle_run (ctx_guild_id ?c) (take (Suc 36) ?ts)"
      unfolding g by (rule hi)
    show "idle_run (ctx_guild_id ?c) (take m ?ts) < 36" if "m \<le> 36" for m
      unfolding g using that by (rule lo)
    show "teardown 1 quiet_tick = teardown (ctx_guild_id ?c) (?ts ! 36)"
      unfolding g by simp
  qed
  from w have "voice_clients ?s (ctx_guild_id ?c) \<noteq> None \<longrightarrow>
        (auto_disconnect ?c ?s ?ts = TornDown (teardown 1 quiet_tick) \<longleftrightarrow>
           (\<exists>n<length ?ts.
               36 \<le> idle_run (ctx_guild_id ?c) (take (Suc n) ?ts)
               \<and> (\<forall>m\<le>n. idle_run (ctx_guild_id ?c) (take m ?ts) < 36)
               \<and> teardown 1 quiet_tick = teardown (ctx_guild_id ?c) (?ts ! n)))"
    by (elim conjE)
  with v ex have td: "auto_disconnect ?c ?s ?ts = TornDown (teardown 1 quiet_tick)"
    by (simp only: simp_thms)
  have pre: "\<forall>m\<le>length (busy_tick # replicate 35 quiet_tick).
          idle_run 1 (take m (busy_tick # replicate 35 quiet_tick)) < 36"
  proof (intro allI impI)
    fix m assume "m \<le> length (busy_tick # replicate 35 quiet_tick)"
    then have m: "m \<le> 36" by simp
    have "take m (busy_tick # replicate 35 quiet_tick) = take m ?ts"
      using m by (cases m) (simp_all add: min_def)
    then show "idle_run 1 (take m (busy_tick # replicate 35 quiet_tick)) < 36"
      using lo[OF m] by simp
  qed
  have "35 \<le> idle_run 1 (busy_tick # replicate 35 quiet_tick)"
    using q by (simp add: idle_run_ge_iff)
  moreover have "idle_run 1 (busy_tick # replicate 35 quiet_tick) \<le> 35"
    using idle_run_active_Cons[OF bz, of "replicate 35 quiet_tick"] by simp
  ultimately have r: "175 = 5 * idle_run 1 (busy_tick # replicate 35 quiet_tick)"
    by simp
  have sp: "auto_disconnect_loop 1 0 (busy_tick # replicate 35 quiet_tick) = StillPolling 175"
    using r pre loop_still_polling[of 1 "busy_tick # replicate 35 quiet_tick" 175] by blast
  note t6 = w[THEN conjunct2, THEN conjunct2, THEN conjunct2, THEN conjunct2, THEN conjunct2,
      THEN conjunct2]
  have e1: "guild_queues (teardown 1 quiet_tick) 1 = Some []"
    by (rule t6[THEN conjunct2, THEN conjunct1])
  have e2: "skip_votes (teardown 1 quiet_tick) 1 = Some {||}"
    by (rule t6[THEN conjunct2, THEN conjunct2, THEN conjunct1])
  have e3: "voice_clients (teardown 1 quiet_tick) 1
       = (if tick_disconnect_raises quiet_tick then voice_clients (tick_state quiet_tick) 1
          else None)"
    by (rule t6[THEN conjunct2, THEN conjunct2, THEN conjunct2, THEN conjunct2])
  have e4: "voice_clients (teardown 1 quiet_tick) 1 = None"
    unfolding e3 by (simp add: quiet_tick_def)
  show ?thesis
    using td sp e1 e2 e4 by (intro conjI)
qed

end
